theory Spec2Isabelle
  imports Main "HOL-Library.Word"
begin

section \<open>Data model (types.ts)\<close>

text \<open>
  A JavaScript string is a sequence of UTF-16 code units.  Message ids, emoji and texts
  are all values of this type; only equality and \<open>trim\<close> are ever used on them.
\<close>

type_synonym js_string = "16 word list"

text \<open>Code units of an ASCII literal, used to write down concrete strings.\<close>

definition ascii :: "string \<Rightarrow> js_string" where
  "ascii s = map (\<lambda>c. of_nat (of_char c)) s"

datatype Language = english | spanish

record Reaction =
  emoji :: js_string
  sender_reaction :: Language

text \<open>
  \<open>timestamp\<close> is a \<open>Date\<close>: milliseconds since the epoch.  \<open>audioUrl\<close> is optional.
  The field \<open>id\<close> of the source is \<open>id_msg\<close> here, the field \<open>sender\<close> of a reaction is
  \<open>sender_reaction\<close>.
\<close>

record ChatMessage =
  id_msg :: js_string
  sender :: Language
  originalText :: js_string
  translatedText :: js_string
  timestamp :: int
  reactions :: "Reaction list"
  audioUrl :: "js_string option"

record TranslationResponse =
  transcription :: js_string
  translation :: js_string

section \<open>Array helpers\<close>

text \<open>
  \<open>Array.prototype.findIndex\<close>: scan from index 0 upwards, return the index of the first
  element satisfying the predicate, or \<open>-1\<close>.
\<close>

fun findIndexFrom :: "('a \<Rightarrow> bool) \<Rightarrow> 'a list \<Rightarrow> nat \<Rightarrow> int" where
  "findIndexFrom P [] k = - 1"
| "findIndexFrom P (x # xs) k = (if P x then int k else findIndexFrom P xs (Suc k))"

definition findIndex :: "('a \<Rightarrow> bool) \<Rightarrow> 'a list \<Rightarrow> int" where
  "findIndex P xs = findIndexFrom P xs 0"

section \<open>Merge on receive (App, channel.onmessage)\<close>

text \<open>
  The state updater passed to \<open>setMessages\<close> by \<open>channel.onmessage\<close>: \<open>prev\<close> is the
  current log, the result is the new log.  \<open>index\<close> is in range whenever it is not \<open>-1\<close>,
  so the array assignment is a list update.
\<close>

definition onmessage :: "ChatMessage list \<Rightarrow> ChatMessage \<Rightarrow> ChatMessage list" where
  "onmessage prev incomingMessage =
     (let index = findIndex (\<lambda>m. id_msg m = id_msg incomingMessage) prev
      in if index \<noteq> - 1 then prev[nat index := incomingMessage]
         else prev @ [incomingMessage])"


section \<open>Built-ins of the language\<close>

text \<open>
  \<open>String.prototype.trim\<close> removes leading and trailing white space and line terminators
  (ECMAScript \<open>WhiteSpace\<close> and \<open>LineTerminator\<close>): TAB, LF, VT, FF, CR, SP, NBSP,
  U+1680, U+2000 to U+200A, U+2028, U+2029, U+202F, U+205F, U+3000 and U+FEFF.
\<close>

definition isWhiteSpace :: "16 word \<Rightarrow> bool" where
  "isWhiteSpace c =
     (c \<in> set [0x9, 0xA, 0xB, 0xC, 0xD, 0x20, 0xA0, 0x1680, 0x2028, 0x2029, 0x202F,
                0x205F, 0x3000, 0xFEFF]
      \<or> (0x2000 \<le> c \<and> c \<le> 0x200A))"

definition trim :: "js_string \<Rightarrow> js_string" where
  "trim s = rev (dropWhile isWhiteSpace (rev (dropWhile isWhiteSpace s)))"

text \<open>
  \<open>Array.prototype.splice(i, 1)\<close> for an index \<open>i\<close> that is not negative: the element
  at \<open>i\<close> is taken out.
\<close>

definition splice1 :: "nat \<Rightarrow> 'a list \<Rightarrow> 'a list" where
  "splice1 i xs = take i xs @ drop (Suc i) xs"

text \<open>
  \<open>Number.prototype.toString\<close> on an integer (\<open>Date.now()\<close> is an integral number of
  milliseconds, far below \<open>10^21\<close>, where the exponent notation would start): the decimal
  digits, most significant first, after a minus sign for a negative number.
\<close>

function digits :: "nat \<Rightarrow> js_string" where
  "digits n = (if n < 10 then [of_nat (48 + n)]
               else digits (n div 10) @ [of_nat (48 + n mod 10)])"
  by pat_completeness auto
termination
  by (relation "measure id") auto

definition toString :: "int \<Rightarrow> js_string" where
  "toString n = (if n < 0 then 0x2D # digits (nat (- n)) else digits (nat n))"

text \<open>A value a promise settles with, or a template literal interpolates.\<close>

datatype js_value = Undefined | Str js_string

fun interpolate :: "js_value \<Rightarrow> js_string" where
  "interpolate Undefined = ascii ''undefined''"
| "interpolate (Str s) = s"

section \<open>The recorder hooks\<close>

text \<open>
  How a call of \<open>stopRecording\<close> settles for the caller that awaits it: the promise is
  rejected, it is resolved with a value (an ordinary return is a resolution with the value
  returned), or it stays pending for ever.
\<close>

datatype Failure = NoRecorderFound | ReaderError

datatype StopOutcome = Rejected Failure | Resolved js_value | Pending

type_synonym Blob = "8 word list"

subsection \<open>The hook the App declares and uses (App lines 7 to 37, src/hooks/useAudioRecorder.ts)\<close>

record AudioRecorder =
  isRecording :: bool
  audioBlob :: "Blob option"

definition startRecording :: "AudioRecorder \<Rightarrow> AudioRecorder" where
  "startRecording r = r\<lparr>isRecording := True\<rparr>"

text \<open>The function body is \<open>setIsRecording(false)\<close>; it returns nothing.\<close>

definition stopRecording :: "AudioRecorder \<Rightarrow> StopOutcome \<times> AudioRecorder" where
  "stopRecording r = (Resolved Undefined, r\<lparr>isRecording := False\<rparr>)"

definition resetRecording :: "AudioRecorder \<Rightarrow> AudioRecorder" where
  "resetRecording r = r\<lparr>isRecording := False, audioBlob := None\<rparr>"

subsection \<open>The hook built on MediaRecorder (the second useAudioRecorder module)\<close>

text \<open>
  The names of this hook carry the suffix \<open>_media\<close>, since both hooks use the same names.
  A \<open>MediaRecorder\<close> is either recording or inactive, and the tracks of its stream are
  live until stopped.  \<open>intervals\<close> are the handles of the running \<open>setInterval\<close> timers.
\<close>

record MediaRecorder =
  recording :: bool
  tracksLive :: bool

record Recorder_media =
  isRecording_media :: bool
  recordingTime :: nat
  mediaRecorderRef :: "MediaRecorder option"
  chunksRef :: "Blob list"
  timerRef :: "nat option"
  intervals :: "nat list"
  micAlerts :: nat

definition useAudioRecorder_media :: Recorder_media where
  "useAudioRecorder_media =
     \<lparr>isRecording_media = False, recordingTime = 0, mediaRecorderRef = None, chunksRef = [],
      timerRef = None, intervals = [], micAlerts = 0\<rparr>"

text \<open>
  \<open>granted\<close> says whether \<open>getUserMedia\<close> resolved with a stream; \<open>handle\<close> is the
  handle \<open>setInterval\<close> returns.  A refusal is caught: logged and reported by an alert.
\<close>

definition startRecording_media :: "bool \<Rightarrow> nat \<Rightarrow> Recorder_media \<Rightarrow> Recorder_media" where
  "startRecording_media granted handle r =
     (if granted
      then r\<lparr>mediaRecorderRef := Some \<lparr>recording = True, tracksLive = True\<rparr>,
             chunksRef := [], isRecording_media := True, recordingTime := 0,
             timerRef := Some handle, intervals := intervals r @ [handle]\<rparr>
      else r\<lparr>micAlerts := micAlerts r + 1\<rparr>)"

definition ondataavailable :: "Blob \<Rightarrow> Recorder_media \<Rightarrow> Recorder_media" where
  "ondataavailable data r =
     (if length data > 0 then r\<lparr>chunksRef := chunksRef r @ [data]\<rparr> else r)"

definition interval_tick :: "Recorder_media \<Rightarrow> Recorder_media" where
  "interval_tick r = r\<lparr>recordingTime := recordingTime r + 1\<rparr>"

text \<open>
  \<open>stopRecording\<close> of this hook.  Without a recorder object the promise is rejected at
  once.  Otherwise \<open>onstop\<close> is installed and \<open>mediaRecorder.stop()\<close> is called: on a
  recorder that is recording the browser hands over the last data (\<open>lastData\<close>) and fires
  \<open>stop\<close>; on an inactive recorder \<open>stop()\<close> does nothing, so the promise stays pending.
  \<open>readBase64\<close> is the FileReader: the base64 part of the data URL of a blob, or
  \<open>None\<close> when the reader reports an error.
\<close>

definition stopRecording_media ::
  "Blob \<Rightarrow> (Blob \<Rightarrow> js_string option) \<Rightarrow> Recorder_media \<Rightarrow> StopOutcome \<times> Recorder_media" where
  "stopRecording_media lastData readBase64 r =
     (case mediaRecorderRef r of
        None \<Rightarrow> (Rejected NoRecorderFound, r)
      | Some mediaRecorder \<Rightarrow>
          if \<not> recording mediaRecorder then (Pending, r)
          else
            let r1 = ondataavailable lastData r;
                blob = concat (chunksRef r1);
                r2 = r1\<lparr>intervals := (case timerRef r1 of None \<Rightarrow> intervals r1
                                        | Some h \<Rightarrow> removeAll h (intervals r1)),
                        recordingTime := 0, isRecording_media := False,
                        mediaRecorderRef := Some \<lparr>recording = False, tracksLive = False\<rparr>\<rparr>
            in (case readBase64 blob of
                  None \<Rightarrow> Rejected ReaderError
                | Some base64String \<Rightarrow> Resolved (Str base64String), r2))"

section \<open>The App\<close>

datatype Alert = VoiceAlert | TextAlert

text \<open>
  The state of the App component that the chat handlers read and write.
  \<open>channelRef\<close> is \<open>None\<close> while \<open>channelRef.current\<close> is null; otherwise it holds the
  messages posted on the broadcast channel so far, oldest first.  \<open>alerts\<close> are the
  notifications shown with \<open>alert\<close>.
\<close>

record AppState =
  messages :: "ChatMessage list"
  inputText :: js_string
  isProcessing :: bool
  myRole :: "Language option"
  activeReactionId :: "js_string option"
  recorder :: AudioRecorder
  channelRef :: "ChatMessage list option"
  alerts :: "Alert list"

definition App :: AppState where
  "App = \<lparr>messages = [], inputText = [], isProcessing = False, myRole = None,
          activeReactionId = None, recorder = \<lparr>isRecording = False, audioBlob = None\<rparr>,
          channelRef = None, alerts = []\<rparr>"

text \<open>
  The mount effect: with a valid invite link (\<open>Some role\<close>) the role is bound and the
  effect returns before the channel is created; otherwise the channel is opened.
\<close>

definition mountEffect :: "Language option \<Rightarrow> AppState \<Rightarrow> AppState" where
  "mountEffect invite st =
     (case invite of
        Some roleParam \<Rightarrow> st\<lparr>myRole := Some roleParam\<rparr>
      | None \<Rightarrow> st\<lparr>channelRef := Some []\<rparr>)"

definition selectRole :: "Language \<Rightarrow> AppState \<Rightarrow> AppState" where
  "selectRole role st = st\<lparr>myRole := Some role\<rparr>"

text \<open>\<open>channelRef.current?.postMessage(m)\<close>\<close>

definition postMessage :: "ChatMessage \<Rightarrow> ChatMessage list option \<Rightarrow> ChatMessage list option" where
  "postMessage m ch = map_option (\<lambda>out. out @ [m]) ch"

text \<open>A delivery on the channel, applied to the state of the receiving tab.\<close>

definition receive :: "AppState \<Rightarrow> ChatMessage \<Rightarrow> AppState" where
  "receive st incomingMessage = st\<lparr>messages := onmessage (messages st) incomingMessage\<rparr>"

subsection \<open>handleTranslationResult\<close>

text \<open>
  \<open>now\<close> is the reading of \<open>Date.now()\<close>, \<open>date\<close> that of \<open>new Date()\<close>.
\<close>

definition newMessage ::
  "TranslationResponse \<Rightarrow> Language \<Rightarrow> js_string option \<Rightarrow> int \<Rightarrow> int \<Rightarrow> ChatMessage" where
  "newMessage result sourceLang url now date =
     \<lparr>id_msg = toString now, sender = sourceLang, originalText = transcription result,
      translatedText = translation result, timestamp = date, reactions = [],
      audioUrl = url\<rparr>"

definition handleTranslationResult ::
  "AppState \<Rightarrow> TranslationResponse \<Rightarrow> Language \<Rightarrow> js_string option \<Rightarrow> int \<Rightarrow> int \<Rightarrow> AppState" where
  "handleTranslationResult st result sourceLang url now date =
     (let newMsg = newMessage result sourceLang url now date
      in st\<lparr>messages := messages st @ [newMsg],
            channelRef := postMessage newMsg (channelRef st)\<rparr>)"

subsection \<open>handleSendText\<close>

text \<open>
  The handler up to its first \<open>await\<close>: the state it leaves and the translation request
  it makes, if any (the text and the source role).
\<close>

definition handleSendText :: "AppState \<Rightarrow> AppState \<times> (js_string \<times> Language) option" where
  "handleSendText st =
     (if trim (inputText st) = [] \<or> isProcessing st then (st, None)
      else case myRole st of
        None \<Rightarrow> (st, None)
      | Some role \<Rightarrow>
          (st\<lparr>isProcessing := True, inputText := []\<rparr>, Some (inputText st, role)))"

text \<open>
  The rest of the handler, run when \<open>translateText\<close> has settled: \<open>Some result\<close> when
  it resolved, \<open>None\<close> when it threw.  \<open>st\<close> is the state at that moment.
\<close>

definition handleSendText_settled ::
  "AppState \<Rightarrow> Language \<Rightarrow> TranslationResponse option \<Rightarrow> int \<Rightarrow> int \<Rightarrow> AppState" where
  "handleSendText_settled st role outcome now date =
     (case outcome of
        Some result \<Rightarrow> (handleTranslationResult st result role None now date)\<lparr>isProcessing := False\<rparr>
      | None \<Rightarrow> st\<lparr>alerts := alerts st @ [TextAlert], isProcessing := False\<rparr>)"

subsection \<open>handleStartRecording, handleStopRecording\<close>

definition handleStartRecording :: "AppState \<Rightarrow> AppState" where
  "handleStartRecording st =
     (if isProcessing st \<or> length (trim (inputText st)) > 0 then st
      else st\<lparr>recorder := startRecording (recorder st)\<rparr>)"

text \<open>
  The handler up to the call of \<open>translateAudioContent\<close>: the state, and either the
  request made (payload, role, audio URL) or nothing.  A rejected \<open>stopRecording\<close> lands in
  the \<open>catch\<close> block; a pending one leaves the handler suspended with \<open>isProcessing\<close> set.
\<close>

definition handleStopRecording ::
  "AppState \<Rightarrow> AppState \<times> (js_value \<times> Language \<times> js_string) option" where
  "handleStopRecording st =
     (if length (trim (inputText st)) > 0 then (st, None)
      else case myRole st of
        None \<Rightarrow> (st, None)
      | Some role \<Rightarrow>
          (case stopRecording (recorder st) of
             (Resolved audioBase64, rec) \<Rightarrow>
               (st\<lparr>isProcessing := True, recorder := rec\<rparr>,
                Some (audioBase64, role,
                      ascii ''data:audio/wav;base64,'' @ interpolate audioBase64))
           | (Rejected err, rec) \<Rightarrow>
               (st\<lparr>recorder := rec, alerts := alerts st @ [VoiceAlert], isProcessing := False\<rparr>,
                None)
           | (Pending, rec) \<Rightarrow> (st\<lparr>isProcessing := True, recorder := rec\<rparr>, None)))"

definition handleStopRecording_settled ::
  "AppState \<Rightarrow> Language \<Rightarrow> js_string \<Rightarrow> TranslationResponse option \<Rightarrow> int \<Rightarrow> int \<Rightarrow> AppState" where
  "handleStopRecording_settled st role url outcome now date =
     (case outcome of
        Some result \<Rightarrow>
          (handleTranslationResult st result role (Some url) now date)\<lparr>isProcessing := False\<rparr>
      | None \<Rightarrow> st\<lparr>alerts := alerts st @ [VoiceAlert], isProcessing := False\<rparr>)"

subsection \<open>handleToggleReaction\<close>

text \<open>The body of the \<open>map\<close> callback for a message whose id matches.\<close>

definition toggleReactions :: "js_string \<Rightarrow> Language \<Rightarrow> Reaction list \<Rightarrow> Reaction list" where
  "toggleReactions e role rs =
     (let existingReactionIndex = findIndex (\<lambda>r. emoji r = e \<and> sender_reaction r = role) rs
      in if existingReactionIndex > - 1 then splice1 (nat existingReactionIndex) rs
         else rs @ [\<lparr>emoji = e, sender_reaction = role\<rparr>])"

text \<open>
  \<open>messages.map\<close> with its callback, which posts every updated message while the array
  is being built: the new array and the channel afterwards.
\<close>

fun toggleMap ::
  "js_string \<Rightarrow> js_string \<Rightarrow> Language \<Rightarrow> ChatMessage list \<Rightarrow> ChatMessage list option
     \<Rightarrow> ChatMessage list \<times> ChatMessage list option" where
  "toggleMap msgId e role [] ch = ([], ch)"
| "toggleMap msgId e role (msg # rest) ch =
     (if id_msg msg \<noteq> msgId
      then (case toggleMap msgId e role rest ch of (ms, ch') \<Rightarrow> (msg # ms, ch'))
      else
        let updatedMsg = msg\<lparr>reactions := toggleReactions e role (reactions msg)\<rparr>
        in (case toggleMap msgId e role rest (postMessage updatedMsg ch) of
              (ms, ch') \<Rightarrow> (updatedMsg # ms, ch')))"

definition handleToggleReaction :: "AppState \<Rightarrow> js_string \<Rightarrow> js_string \<Rightarrow> AppState" where
  "handleToggleReaction st msgId e =
     (case myRole st of
        None \<Rightarrow> st
      | Some role \<Rightarrow>
          (case toggleMap msgId e role (messages st) (channelRef st) of
             (updatedMessages, ch) \<Rightarrow>
               st\<lparr>messages := updatedMessages, channelRef := ch, activeReactionId := None\<rparr>))"

text \<open>
  The handler has no \<open>throw\<close> and calls nothing that can reject, so seen as an operation
  that may fail it always completes.
\<close>

definition handleToggleReaction_completion ::
  "AppState \<Rightarrow> js_string \<Rightarrow> js_string \<Rightarrow> Failure + AppState" where
  "handleToggleReaction_completion st msgId e = Inr (handleToggleReaction st msgId e)"

subsection \<open>The value the map callback of handleToggleReaction returns\<close>

definition toggleMsg :: "js_string \<Rightarrow> js_string \<Rightarrow> Language \<Rightarrow> ChatMessage \<Rightarrow> ChatMessage" where
  "toggleMsg msgId e role msg =
     (if id_msg msg \<noteq> msgId then msg
      else msg\<lparr>reactions := toggleReactions e role (reactions msg)\<rparr>)"

subsection \<open>Sequences of local operations\<close>

text \<open>
  The operations of a tab that do not come from the channel: binding a role, creating a
  message (the arguments of \<open>handleTranslationResult\<close>) and toggling a reaction.
\<close>

datatype LocalOp =
    SelectRole Language
  | Create TranslationResponse Language "js_string option" int int
  | Toggle js_string js_string

fun applyLocal :: "AppState \<Rightarrow> LocalOp \<Rightarrow> AppState" where
  "applyLocal st (SelectRole role) = selectRole role st"
| "applyLocal st (Create result sourceLang url now date) =
     handleTranslationResult st result sourceLang url now date"
| "applyLocal st (Toggle msgId e) = handleToggleReaction st msgId e"

definition runLocal :: "AppState \<Rightarrow> LocalOp list \<Rightarrow> AppState" where
  "runLocal st ops = foldl applyLocal st ops"

text \<open>At most one reaction per pair of emoji and sender, on every message of a log.\<close>

definition reactionsUnique :: "ChatMessage list \<Rightarrow> bool" where
  "reactionsUnique ms = list_all (\<lambda>m. distinct (reactions m)) ms"

section \<open>Sample data\<close>

text \<open>The emoji U+2764 U+FE0F and U+1F525 (a surrogate pair), as code units.\<close>

definition heart :: js_string where
  "heart = [0x2764, 0xFE0F]"

definition fire :: js_string where
  "fire = [0xD83D, 0xDD25]"

definition hola :: TranslationResponse where
  "hola = \<lparr>transcription = ascii ''Hola'', translation = ascii ''Hello''\<rparr>"

definition thanks :: TranslationResponse where
  "thanks = \<lparr>transcription = ascii ''Thanks'', translation = ascii ''Gracias''\<rparr>"

definition m1 :: ChatMessage where
  "m1 = newMessage hola spanish None 1730000000000 1730000000000"

definition m2 :: ChatMessage where
  "m2 = newMessage thanks english None 1730000004000 1730000004001"

definition heartA :: Reaction where
  "heartA = \<lparr>emoji = heart, sender_reaction = english\<rparr>"

definition fireA :: Reaction where
  "fireA = \<lparr>emoji = fire, sender_reaction = english\<rparr>"

definition tabA :: AppState where
  "tabA = App\<lparr>messages := [m1\<lparr>reactions := [heartA, fireA]\<rparr>, m2],
              myRole := Some english, channelRef := Some []\<rparr>"

definition tabD :: AppState where
  "tabD = App\<lparr>messages := [m1\<lparr>reactions := [heartA, heartA]\<rparr>],
              myRole := Some english, channelRef := Some []\<rparr>"

definition tabB :: AppState where
  "tabB = App\<lparr>myRole := Some spanish, channelRef := Some []\<rparr>"

text \<open>
  A tab of the English speaker that received \<open>m1\<close> from the other tab and created a
  message of its own within the same millisecond: two entries share one id.
\<close>

definition tabC :: AppState where
  "tabC =
     handleTranslationResult (receive (App\<lparr>myRole := Some english, channelRef := Some []\<rparr>) m1)
       thanks english None 1730000000000 1730000000001"

definition session :: "LocalOp list" where
  "session =
     [SelectRole english,
      Create hola english None 1730000000000 1730000000000,
      Toggle (toString 1730000000000) heart,
      Toggle (toString 1730000000000) fire,
      Create thanks english None 1730000004000 1730000004001,
      Toggle (toString 1730000000000) heart]"

section \<open>Auxiliary definitions for the proofs\<close>

text \<open>The number a string of decimal digits denotes.\<close>

definition digitsValue :: "js_string \<Rightarrow> nat" where
  "digitsValue s = foldl (\<lambda>acc c. 10 * acc + (unat c - 48)) 0 s"

text \<open>The readings of \<open>Date.now()\<close> that the creations of a sequence of operations used.\<close>

definition clockReadings :: "LocalOp list \<Rightarrow> int list" where
  "clockReadings ops =
     concat (map (\<lambda>op. case op of Create result sourceLang url now date \<Rightarrow> [now] | _ \<Rightarrow> []) ops)"

section \<open>Facts about findIndex\<close>

lemma findIndexFrom_absent:
  "(\<forall>x \<in> set xs. \<not> P x) \<Longrightarrow> findIndexFrom P xs k = - 1"
  by (induction xs arbitrary: k) auto

lemma findIndexFrom_present:
  "\<exists>x \<in> set xs. P x \<Longrightarrow>
   \<exists>i < length xs. findIndexFrom P xs k = int (k + i) \<and> P (xs ! i) \<and> (\<forall>j < i. \<not> P (xs ! j))"
proof (induction xs arbitrary: k)
  case Nil
  then show ?case by simp
next
  case (Cons x xs)
  show ?case
  proof (cases "P x")
    case True
    then have "findIndexFrom P (x # xs) k = int (k + 0) \<and> P ((x # xs) ! 0)
        \<and> (\<forall>j < 0. \<not> P ((x # xs) ! j))"
      by simp
    then show ?thesis by blast
  next
    case False
    with Cons.prems have "\<exists>y \<in> set xs. P y" by auto
    from Cons.IH [OF this, of "Suc k"] obtain i where i: "i < length xs"
      "findIndexFrom P xs (Suc k) = int (Suc k + i)" "P (xs ! i)" "\<forall>j < i. \<not> P (xs ! j)"
      by blast
    have "\<forall>j < Suc i. \<not> P ((x # xs) ! j)"
      using False i(4) by (auto simp: nth_Cons split: nat.splits)
    with False i have "Suc i < length (x # xs) \<and>
        findIndexFrom P (x # xs) k = int (k + Suc i) \<and> P ((x # xs) ! Suc i)
        \<and> (\<forall>j < Suc i. \<not> P ((x # xs) ! j))"
      by simp
    then show ?thesis by blast
  qed
qed

lemma findIndex_absent: "(\<forall>x \<in> set xs. \<not> P x) \<Longrightarrow> findIndex P xs = - 1"
  by (simp add: findIndex_def findIndexFrom_absent)

lemma findIndex_present:
  assumes "\<exists>x \<in> set xs. P x"
  obtains i where "i < length xs" "findIndex P xs = int i" "P (xs ! i)" "\<forall>j < i. \<not> P (xs ! j)"
  using findIndexFrom_present [OF assms, of 0] by (auto simp: findIndex_def)

lemma findIndex_first:
  assumes "i < length xs" "P (xs ! i)" "\<forall>j < i. \<not> P (xs ! j)"
  shows "findIndex P xs = int i"
proof -
  from assms(1,2) have "\<exists>x \<in> set xs. P x" by (meson nth_mem)
  then obtain i' where i': "i' < length xs" "findIndex P xs = int i'" "P (xs ! i')"
      "\<forall>j < i'. \<not> P (xs ! j)"
    by (rule findIndex_present)
  have "\<not> i' < i" using assms(3) i'(3) by blast
  moreover have "\<not> i < i'" using assms(2) i'(4) by blast
  ultimately show ?thesis using i'(2) by simp
qed

section \<open>Merge is an upsert\<close>

lemma onmessage_known:
  assumes "\<exists>m \<in> set prev. id_msg m = id_msg incoming"
  obtains i where "i < length prev" "id_msg (prev ! i) = id_msg incoming"
    "\<forall>j < i. id_msg (prev ! j) \<noteq> id_msg incoming" "onmessage prev incoming = prev[i := incoming]"
proof -
  from assms obtain i where i: "i < length prev"
      "findIndex (\<lambda>m. id_msg m = id_msg incoming) prev = int i"
      "id_msg (prev ! i) = id_msg incoming" "\<forall>j < i. id_msg (prev ! j) \<noteq> id_msg incoming"
    by (rule findIndex_present)
  then have "onmessage prev incoming = prev[i := incoming]"
    by (simp add: onmessage_def)
  with i that show ?thesis by blast
qed

lemma onmessage_unknown:
  "\<forall>m \<in> set prev. id_msg m \<noteq> id_msg incoming \<Longrightarrow> onmessage prev incoming = prev @ [incoming]"
  by (simp add: onmessage_def findIndex_absent)

lemma length_onmessage: "length prev \<le> length (onmessage prev incoming)"
  by (simp add: onmessage_def Let_def)

lemma ids_onmessage: "id_msg ` set prev \<subseteq> id_msg ` set (onmessage prev incoming)"
proof (cases "\<exists>m \<in> set prev. id_msg m = id_msg incoming")
  case True
  then obtain i where i: "i < length prev" "id_msg (prev ! i) = id_msg incoming"
      "onmessage prev incoming = prev[i := incoming]"
    by (rule onmessage_known)
  have "map id_msg (prev[i := incoming]) = map id_msg prev"
    using i(1,2) by (simp add: map_update list_update_same_conv)
  then have "id_msg ` set (prev[i := incoming]) = id_msg ` set prev"
    by (metis set_map)
  with i(3) show ?thesis by simp
next
  case False
  then show ?thesis by (auto simp: onmessage_unknown)
qed

text \<open>
  C1.  The merge handler is an upsert.  If some entry of the log has the id of the
  incoming message, the first such entry (at index \<open>i\<close>) is replaced as a whole by the
  incoming message and every other position is untouched; otherwise the incoming message is
  appended at the end.  Merge never removes an entry: the log does not get shorter and
  every id that was in the log is still in it.
\<close>

theorem merge_upsert:
  "((\<exists>m \<in> set prev. id_msg m = id_msg incoming) \<longrightarrow>
      (\<exists>i < length prev. id_msg (prev ! i) = id_msg incoming
          \<and> (\<forall>j < i. id_msg (prev ! j) \<noteq> id_msg incoming)
          \<and> onmessage prev incoming = prev[i := incoming]))
   \<and> ((\<forall>m \<in> set prev. id_msg m \<noteq> id_msg incoming) \<longrightarrow>
      onmessage prev incoming = prev @ [incoming])
   \<and> length prev \<le> length (onmessage prev incoming)
   \<and> id_msg ` set prev \<subseteq> id_msg ` set (onmessage prev incoming)"
proof (intro conjI impI)
  assume "\<exists>m \<in> set prev. id_msg m = id_msg incoming"
  then show "\<exists>i < length prev. id_msg (prev ! i) = id_msg incoming
      \<and> (\<forall>j < i. id_msg (prev ! j) \<noteq> id_msg incoming)
      \<and> onmessage prev incoming = prev[i := incoming]"
    by (rule onmessage_known) blast
next
  assume "\<forall>m \<in> set prev. id_msg m \<noteq> id_msg incoming"
  then show "onmessage prev incoming = prev @ [incoming]"
    by (rule onmessage_unknown)
next
  show "length prev \<le> length (onmessage prev incoming)"
    by (rule length_onmessage)
next
  show "id_msg ` set prev \<subseteq> id_msg ` set (onmessage prev incoming)"
    by (rule ids_onmessage)
qed

lemma id_m1: "id_msg m1 = ascii ''1730000000000''"
  by (simp add: m1_def newMessage_def toString_def ascii_def)

lemma id_m2: "id_msg m2 = ascii ''1730000004000''"
  by (simp add: m2_def newMessage_def toString_def ascii_def)

lemma ids_differ: "id_msg m1 \<noteq> id_msg m2"
  by (simp add: id_m1 id_m2 ascii_def)

theorem merge_upsert_witness:
  "onmessage [m1, m2] (m1\<lparr>reactions := [\<lparr>emoji = heart, sender_reaction = english\<rparr>]\<rparr>)
     = [m1\<lparr>reactions := [\<lparr>emoji = heart, sender_reaction = english\<rparr>]\<rparr>, m2]
   \<and> onmessage [m1] m2 = [m1, m2]"
proof -
  let ?inc = "m1\<lparr>reactions := [\<lparr>emoji = heart, sender_reaction = english\<rparr>]\<rparr>"
  have "\<exists>m \<in> set [m1, m2]. id_msg m = id_msg ?inc" by simp
  with merge_upsert [of "[m1, m2]" ?inc]
  obtain i where i: "i < length [m1, m2]" "\<forall>j < i. id_msg ([m1, m2] ! j) \<noteq> id_msg ?inc"
      "onmessage [m1, m2] ?inc = [m1, m2][i := ?inc]"
    by blast
  have "i = 0"
  proof (rule ccontr)
    assume "i \<noteq> 0"
    then have "0 < i" by simp
    with i(2) have "id_msg ([m1, m2] ! 0) \<noteq> id_msg ?inc" by blast
    then show False by simp
  qed
  with i(3) have first: "onmessage [m1, m2] ?inc = [?inc, m2]" by simp
  have "\<forall>m \<in> set [m1]. id_msg m \<noteq> id_msg m2" using ids_differ by simp
  with merge_upsert [of "[m1]" m2] have "onmessage [m1] m2 = [m1] @ [m2]" by blast
  with first show ?thesis by simp
qed

section \<open>Merge: the last delivery wins\<close>

lemma onmessage_same_id_twice:
  assumes "id_msg a = id_msg b"
  shows "onmessage (onmessage prev a) b = onmessage prev b"
proof (cases "\<exists>m \<in> set prev. id_msg m = id_msg a")
  case True
  then obtain i where i: "i < length prev" "id_msg (prev ! i) = id_msg a"
      "\<forall>j < i. id_msg (prev ! j) \<noteq> id_msg a" "onmessage prev a = prev[i := a]"
    by (rule onmessage_known)
  have "findIndex (\<lambda>m. id_msg m = id_msg b) (prev[i := a]) = int i"
    using i assms by (intro findIndex_first) auto
  then have "onmessage (prev[i := a]) b = prev[i := b]"
    by (simp add: onmessage_def)
  moreover have "findIndex (\<lambda>m. id_msg m = id_msg b) prev = int i"
    using i assms by (intro findIndex_first) auto
  then have "onmessage prev b = prev[i := b]"
    by (simp add: onmessage_def)
  ultimately show ?thesis using i(4) by simp
next
  case False
  then have a: "onmessage prev a = prev @ [a]" and b: "onmessage prev b = prev @ [b]"
    using assms by (simp_all add: onmessage_unknown)
  have "findIndex (\<lambda>m. id_msg m = id_msg b) (prev @ [a]) = int (length prev)"
    using False assms by (intro findIndex_first) (auto simp: nth_append)
  then have "onmessage (prev @ [a]) b = prev @ [b]"
    by (simp add: onmessage_def)
  with a b show ?thesis by simp
qed

lemma find_onmessage:
  "find (\<lambda>m. id_msg m = id_msg b) (onmessage prev b) = Some b"
proof (cases "\<exists>m \<in> set prev. id_msg m = id_msg b")
  case True
  then obtain i where i: "i < length prev" "id_msg (prev ! i) = id_msg b"
      "\<forall>j < i. id_msg (prev ! j) \<noteq> id_msg b" "onmessage prev b = prev[i := b]"
    by (rule onmessage_known)
  have "find (\<lambda>m. id_msg m = id_msg b) (prev[i := b]) = Some b"
    using i(1,3) by (auto simp: find_Some_iff nth_list_update intro!: exI [of _ i])
  with i(4) show ?thesis by simp
next
  case False
  then have "find (\<lambda>m. id_msg m = id_msg b) (prev @ [b]) = Some b"
    by (auto simp: find_Some_iff nth_append intro!: exI [of _ "length prev"])
  with False show ?thesis by (simp add: onmessage_unknown)
qed

lemma onmessage_distinct_ids:
  assumes "distinct (map id_msg prev)" "m \<in> set (onmessage prev b)" "id_msg m = id_msg b"
  shows "m = b"
proof (cases "\<exists>m \<in> set prev. id_msg m = id_msg b")
  case True
  then obtain i where i: "i < length prev" "id_msg (prev ! i) = id_msg b"
      "onmessage prev b = prev[i := b]"
    by (rule onmessage_known)
  from assms(2) i(3) obtain k where k: "k < length prev" "m = prev[i := b] ! k"
    by (metis in_set_conv_nth length_list_update)
  show ?thesis
  proof (cases "k = i")
    case True
    with k i(1) show ?thesis by simp
  next
    case False
    with k have "m = prev ! k" by simp
    with assms(3) i(2) have same: "id_msg (prev ! k) = id_msg (prev ! i)" by simp
    from assms(1) have "\<forall>p < length prev. \<forall>q < length prev.
        p \<noteq> q \<longrightarrow> id_msg (prev ! p) \<noteq> id_msg (prev ! q)"
      by (simp add: distinct_conv_nth)
    with same k(1) i(1) have "k = i" by blast
    with False show ?thesis by simp
  qed
next
  case False
  with assms(2,3) show ?thesis by (auto simp: onmessage_unknown)
qed

text \<open>
  C2.  Two deliveries \<open>a\<close> and \<open>b\<close> with the same id: after \<open>a\<close> then \<open>b\<close> the log is
  the one \<open>b\<close> alone would have produced; the record stored under that id (the one a lookup
  by id finds) is \<open>b\<close> itself, so its reactions are those of \<open>b\<close>, not a union with
  those of \<open>a\<close>; and in a log whose ids are distinct every record with that id has the
  reactions of \<open>b\<close>.  The order of the two is arbitrary, so the same holds with \<open>a\<close> last.
\<close>

theorem merge_last_write_wins:
  assumes "id_msg a = id_msg b"
  shows "onmessage (onmessage prev a) b = onmessage prev b
    \<and> find (\<lambda>m. id_msg m = id_msg b) (onmessage (onmessage prev a) b) = Some b
    \<and> map_option reactions (find (\<lambda>m. id_msg m = id_msg b) (onmessage (onmessage prev a) b))
        = Some (reactions b)
    \<and> (distinct (map id_msg prev) \<longrightarrow>
        (\<forall>m \<in> set (onmessage (onmessage prev a) b). id_msg m = id_msg b \<longrightarrow> reactions m = reactions b))"
  using assms
  by (auto simp: onmessage_same_id_twice find_onmessage dest: onmessage_distinct_ids)

theorem merge_last_write_wins_witness:
  "id_msg (m1\<lparr>reactions := [\<lparr>emoji = heart, sender_reaction = english\<rparr>]\<rparr>)
     = id_msg (m1\<lparr>reactions := [\<lparr>emoji = fire, sender_reaction = spanish\<rparr>]\<rparr>)
   \<and> map_option reactions
       (find (\<lambda>m. id_msg m = id_msg m1)
          (onmessage (onmessage [m1, m2]
             (m1\<lparr>reactions := [\<lparr>emoji = heart, sender_reaction = english\<rparr>]\<rparr>))
             (m1\<lparr>reactions := [\<lparr>emoji = fire, sender_reaction = spanish\<rparr>]\<rparr>)))
       = Some [\<lparr>emoji = fire, sender_reaction = spanish\<rparr>]
   \<and> map_option reactions
       (find (\<lambda>m. id_msg m = id_msg m1)
          (onmessage (onmessage [m1, m2]
             (m1\<lparr>reactions := [\<lparr>emoji = fire, sender_reaction = spanish\<rparr>]\<rparr>))
             (m1\<lparr>reactions := [\<lparr>emoji = heart, sender_reaction = english\<rparr>]\<rparr>)))
       = Some [\<lparr>emoji = heart, sender_reaction = english\<rparr>]"
proof -
  let ?a = "m1\<lparr>reactions := [\<lparr>emoji = heart, sender_reaction = english\<rparr>]\<rparr>"
  let ?b = "m1\<lparr>reactions := [\<lparr>emoji = fire, sender_reaction = spanish\<rparr>]\<rparr>"
  have ab: "id_msg ?a = id_msg ?b" and ba: "id_msg ?b = id_msg ?a" by simp_all
  have ida: "id_msg ?a = id_msg m1" and idb: "id_msg ?b = id_msg m1" by simp_all
  have "map_option reactions
      (find (\<lambda>m. id_msg m = id_msg ?b) (onmessage (onmessage [m1, m2] ?a) ?b))
      = Some (reactions ?b)"
    using merge_last_write_wins [OF ab, of "[m1, m2]"] by (elim conjE)
  then have 1: "map_option reactions
      (find (\<lambda>m. id_msg m = id_msg m1) (onmessage (onmessage [m1, m2] ?a) ?b))
      = Some [\<lparr>emoji = fire, sender_reaction = spanish\<rparr>]"
    unfolding idb by simp
  have "map_option reactions
      (find (\<lambda>m. id_msg m = id_msg ?a) (onmessage (onmessage [m1, m2] ?b) ?a))
      = Some (reactions ?a)"
    using merge_last_write_wins [OF ba, of "[m1, m2]"] by (elim conjE)
  then have 2: "map_option reactions
      (find (\<lambda>m. id_msg m = id_msg m1) (onmessage (onmessage [m1, m2] ?b) ?a))
      = Some [\<lparr>emoji = heart, sender_reaction = english\<rparr>]"
    unfolding ida by simp
  from ab 1 2 show ?thesis by (intro conjI)
qed

section \<open>Toggling a reaction\<close>

lemma reaction_matches:
  "(emoji r = e \<and> sender_reaction r = role) = (r = \<lparr>emoji = e, sender_reaction = role\<rparr>)"
  by (cases r) auto

lemma splice1_first:
  "i < length xs \<Longrightarrow> xs ! i = x \<Longrightarrow> \<forall>j < i. xs ! j \<noteq> x \<Longrightarrow> splice1 i xs = remove1 x xs"
proof (induction xs arbitrary: i)
  case Nil
  then show ?case by simp
next
  case (Cons y ys)
  show ?case
  proof (cases i)
    case 0
    with Cons.prems show ?thesis by (simp add: splice1_def)
  next
    case (Suc k)
    with Cons.prems have k: "k < length ys" "ys ! k = x" "\<forall>j < k. ys ! j \<noteq> x"
      by auto
    from Cons.prems(3) Suc have "y \<noteq> x" by auto
    with Cons.IH [OF k] Suc show ?thesis by (simp add: splice1_def)
  qed
qed

lemma toggleReactions_eq:
  "toggleReactions e role rs =
     (if \<lparr>emoji = e, sender_reaction = role\<rparr> \<in> set rs
      then remove1 \<lparr>emoji = e, sender_reaction = role\<rparr> rs
      else rs @ [\<lparr>emoji = e, sender_reaction = role\<rparr>])"
proof (cases "\<lparr>emoji = e, sender_reaction = role\<rparr> \<in> set rs")
  case True
  then have "\<exists>r \<in> set rs. r = \<lparr>emoji = e, sender_reaction = role\<rparr>" by simp
  then obtain i where i: "i < length rs"
      "findIndex (\<lambda>r. r = \<lparr>emoji = e, sender_reaction = role\<rparr>) rs = int i"
      "rs ! i = \<lparr>emoji = e, sender_reaction = role\<rparr>"
      "\<forall>j < i. rs ! j \<noteq> \<lparr>emoji = e, sender_reaction = role\<rparr>"
    by (rule findIndex_present)
  from i(1,3,4) have "splice1 i rs = remove1 \<lparr>emoji = e, sender_reaction = role\<rparr> rs"
    by (rule splice1_first)
  with True i(2) show ?thesis
    by (simp add: toggleReactions_def reaction_matches)
next
  case False
  then have "findIndex (\<lambda>r. r = \<lparr>emoji = e, sender_reaction = role\<rparr>) rs = - 1"
    by (intro findIndex_absent) auto
  with False show ?thesis
    by (simp add: toggleReactions_def reaction_matches)
qed

lemma not_in_remove1_once: "count_list xs x \<le> 1 \<Longrightarrow> x \<notin> set (remove1 x xs)"
  by (induction xs) (auto simp: count_list_0_iff split: if_splits)

lemma set_remove1_snoc: "x \<in> set xs \<Longrightarrow> set (remove1 x xs @ [x]) = set xs"
  by (induction xs) auto

lemma toggleReactions_twice:
  assumes "count_list rs \<lparr>emoji = e, sender_reaction = role\<rparr> \<le> 1"
  shows "toggleReactions e role (toggleReactions e role rs) =
     (if \<lparr>emoji = e, sender_reaction = role\<rparr> \<in> set rs
      then remove1 \<lparr>emoji = e, sender_reaction = role\<rparr> rs @ [\<lparr>emoji = e, sender_reaction = role\<rparr>]
      else rs)"
  using not_in_remove1_once [OF assms]
  by (simp add: toggleReactions_eq remove1_append)

lemma distinct_toggleReactions: "distinct rs \<Longrightarrow> distinct (toggleReactions e role rs)"
  by (simp add: toggleReactions_eq)

lemma toggleMap_eq:
  "toggleMap msgId e role ms ch =
     (map (toggleMsg msgId e role) ms,
      map_option (\<lambda>out. out @ filter (\<lambda>m. id_msg m = msgId) (map (toggleMsg msgId e role) ms)) ch)"
proof (induction ms arbitrary: ch)
  case Nil
  then show ?case by (simp add: option.map_ident)
next
  case (Cons m ms)
  show ?case
  proof (cases "id_msg m = msgId")
    case True
    then show ?thesis
      by (cases ch) (simp_all add: Cons.IH toggleMsg_def postMessage_def Let_def)
  next
    case False
    then show ?thesis
      by (simp add: Cons.IH toggleMsg_def)
  qed
qed

lemma id_toggleMsg: "id_msg (toggleMsg msgId e role m) = id_msg m"
  by (simp add: toggleMsg_def)

lemma handleToggleReaction_bound:
  "myRole st = Some role \<Longrightarrow>
   handleToggleReaction st msgId e =
     st\<lparr>messages := map (toggleMsg msgId e role) (messages st),
        channelRef := map_option
          (\<lambda>out. out @ filter (\<lambda>m. id_msg m = msgId) (map (toggleMsg msgId e role) (messages st)))
          (channelRef st),
        activeReactionId := None\<rparr>"
  by (simp add: handleToggleReaction_def toggleMap_eq)

lemma handleToggleReaction_unbound: "myRole st = None \<Longrightarrow> handleToggleReaction st msgId e = st"
  by (simp add: handleToggleReaction_def)

lemma messages_handleToggleReaction:
  "messages (handleToggleReaction st msgId e) =
     (case myRole st of None \<Rightarrow> messages st
      | Some role \<Rightarrow> map (toggleMsg msgId e role) (messages st))"
  by (cases "myRole st") (simp_all add: handleToggleReaction_bound handleToggleReaction_unbound)

lemma myRole_handleToggleReaction: "myRole (handleToggleReaction st msgId e) = myRole st"
  by (cases "myRole st") (simp_all add: handleToggleReaction_bound handleToggleReaction_unbound)

text \<open>
  C3 (as amended).  With a role bound and a message with id \<open>msgId\<close> at position \<open>i\<close>:
  one toggle of \<open>(e, role)\<close> removes the first matching reaction if there is one and
  appends the reaction otherwise.  If the pair occurs at most once in the reactions, two
  toggles in succession give back the same set of reactions: the same sequence when the pair
  was absent, and the sequence with the pair moved to the end when it was present.
\<close>

theorem toggle_twice:
  assumes "myRole st = Some role" "i < length (messages st)" "id_msg (messages st ! i) = msgId"
    and "rs = reactions (messages st ! i)" "r = \<lparr>emoji = e, sender_reaction = role\<rparr>"
  shows "reactions (messages (handleToggleReaction st msgId e) ! i)
      = (if r \<in> set rs then remove1 r rs else rs @ [r])
    \<and> (count_list rs r \<le> 1 \<longrightarrow>
        reactions (messages (handleToggleReaction (handleToggleReaction st msgId e) msgId e) ! i)
          = (if r \<in> set rs then remove1 r rs @ [r] else rs)
        \<and> set (reactions
              (messages (handleToggleReaction (handleToggleReaction st msgId e) msgId e) ! i))
          = set rs)"
proof -
  let ?st1 = "handleToggleReaction st msgId e"
  have one: "reactions (messages ?st1 ! i) = toggleReactions e role rs"
    using assms(1-4) by (simp add: messages_handleToggleReaction toggleMsg_def)
  have role1: "myRole ?st1 = Some role"
    using assms(1) by (simp add: myRole_handleToggleReaction)
  have "messages (handleToggleReaction ?st1 msgId e) ! i
      = toggleMsg msgId e role (toggleMsg msgId e role (messages st ! i))"
    using assms(1,2) role1 by (simp add: messages_handleToggleReaction)
  then have two: "reactions (messages (handleToggleReaction ?st1 msgId e) ! i)
      = toggleReactions e role (toggleReactions e role rs)"
    using assms(3,4) by (simp add: toggleMsg_def)
  show ?thesis
  proof (intro conjI impI)
    show "reactions (messages ?st1 ! i) = (if r \<in> set rs then remove1 r rs else rs @ [r])"
      using one assms(5) by (simp add: toggleReactions_eq)
  next
    assume "count_list rs r \<le> 1"
    then have twice: "toggleReactions e role (toggleReactions e role rs)
        = (if r \<in> set rs then remove1 r rs @ [r] else rs)"
      using toggleReactions_twice [of rs e role] assms(5) by simp
    show "reactions (messages (handleToggleReaction ?st1 msgId e) ! i)
        = (if r \<in> set rs then remove1 r rs @ [r] else rs)"
      using two twice by simp
    show "set (reactions (messages (handleToggleReaction ?st1 msgId e) ! i)) = set rs"
      using two twice set_remove1_snoc [of r rs] by auto
  qed
qed

lemma heartA_neq_fireA: "heartA \<noteq> fireA"
  by (simp add: heartA_def fireA_def heart_def fire_def)

lemma tabA_toggled_once:
  "handleToggleReaction tabA (id_msg m1) heart =
     tabA\<lparr>messages := [m1\<lparr>reactions := [fireA]\<rparr>, m2],
          channelRef := Some [m1\<lparr>reactions := [fireA]\<rparr>]\<rparr>"
  using ids_differ heartA_neq_fireA
  by (simp add: tabA_def App_def handleToggleReaction_def toggleReactions_def findIndex_def
      splice1_def postMessage_def heartA_def fireA_def Let_def)

lemma tabA_toggled_twice:
  "handleToggleReaction (handleToggleReaction tabA (id_msg m1) heart) (id_msg m1) heart =
     tabA\<lparr>messages := [m1\<lparr>reactions := [fireA, heartA]\<rparr>, m2],
          channelRef := Some [m1\<lparr>reactions := [fireA]\<rparr>, m1\<lparr>reactions := [fireA, heartA]\<rparr>]\<rparr>"
  unfolding tabA_toggled_once
  using ids_differ heartA_neq_fireA
  by (simp add: tabA_def App_def handleToggleReaction_def toggleReactions_def findIndex_def
      splice1_def postMessage_def heartA_def fireA_def Let_def)

lemma tabD_toggled_twice:
  "messages (handleToggleReaction (handleToggleReaction tabD (id_msg m1) heart) (id_msg m1) heart)
     = [m1\<lparr>reactions := []\<rparr>]"
  by (simp add: tabD_def App_def handleToggleReaction_def toggleReactions_def findIndex_def
      splice1_def postMessage_def heartA_def Let_def)

text \<open>
  C3 as stated fails.  In \<open>tabA\<close> the first message carries the reactions heart, fire
  (both by the English speaker); toggling heart twice leaves fire, heart: the same set in
  another order.  In \<open>tabD\<close> the pair is stored twice, and two toggles remove both copies.
\<close>

theorem toggle_twice_counterexample:
  "reactions (messages tabA ! 0) = [heartA, fireA]
   \<and> reactions (messages
        (handleToggleReaction (handleToggleReaction tabA (id_msg m1) heart) (id_msg m1) heart) ! 0)
      = [fireA, heartA]
   \<and> reactions (messages
        (handleToggleReaction (handleToggleReaction tabA (id_msg m1) heart) (id_msg m1) heart) ! 0)
      \<noteq> reactions (messages tabA ! 0)
   \<and> reactions (messages tabD ! 0) = [heartA, heartA]
   \<and> reactions (messages
        (handleToggleReaction (handleToggleReaction tabD (id_msg m1) heart) (id_msg m1) heart) ! 0)
      = []"
  unfolding tabA_toggled_twice tabD_toggled_twice
  using heartA_neq_fireA by (simp add: tabA_def tabD_def)

theorem toggle_twice_witness:
  "myRole tabA = Some english \<and> 0 < length (messages tabA)
   \<and> id_msg (messages tabA ! 0) = id_msg m1
   \<and> count_list [heartA, fireA] heartA \<le> 1
   \<and> reactions (messages (handleToggleReaction tabA (id_msg m1) heart) ! 0) = [fireA]
   \<and> set (reactions (messages
        (handleToggleReaction (handleToggleReaction tabA (id_msg m1) heart) (id_msg m1) heart) ! 0))
      = {heartA, fireA}"
proof -
  have h: "myRole tabA = Some english" "0 < length (messages tabA)"
      "id_msg (messages tabA ! 0) = id_msg m1" "[heartA, fireA] = reactions (messages tabA ! 0)"
      "heartA = \<lparr>emoji = heart, sender_reaction = english\<rparr>"
    by (simp_all add: tabA_def App_def heartA_def)
  have c: "count_list [heartA, fireA] heartA \<le> 1"
    using heartA_neq_fireA by simp
  from toggle_twice [OF h] c heartA_neq_fireA
  have "reactions (messages (handleToggleReaction tabA (id_msg m1) heart) ! 0) = [fireA]"
    and "set (reactions (messages
        (handleToggleReaction (handleToggleReaction tabA (id_msg m1) heart) (id_msg m1) heart) ! 0))
      = {heartA, fireA}"
    by auto
  with h(1-3) c show ?thesis by (intro conjI)
qed

section \<open>Frame of a toggle\<close>

lemma toggle_keeps_other_ids:
  assumes "distinct (map id_msg (messages st))" "i < length (messages st)"
    "id_msg (messages st ! i) = msgId" "j < length (messages st)" "j \<noteq> i"
  shows "messages (handleToggleReaction st msgId e) ! j = messages st ! j"
proof -
  from assms(1) have "\<forall>p < length (messages st). \<forall>q < length (messages st).
      p \<noteq> q \<longrightarrow> id_msg (messages st ! p) \<noteq> id_msg (messages st ! q)"
    by (simp add: distinct_conv_nth)
  with assms(2-5) have "id_msg (messages st ! j) \<noteq> msgId" by blast
  with assms(4) show ?thesis
    by (cases "myRole st") (simp_all add: messages_handleToggleReaction toggleMsg_def)
qed

text \<open>
  C8 (as amended).  A toggle keeps the length of the log; at every position the id, sender,
  original text, translated text, timestamp and audio URL of the message are what they
  were, and a message whose id is not the targeted id is unchanged as a whole.  With a role
  bound, every entry that carries the targeted id gets its reactions toggled.  So when the
  ids of the log are pairwise distinct, every message other than the targeted one is
  unchanged.
\<close>

theorem toggle_frame:
  "length (messages (handleToggleReaction st msgId e)) = length (messages st)
   \<and> (\<forall>i < length (messages st).
        id_msg (messages (handleToggleReaction st msgId e) ! i) = id_msg (messages st ! i)
      \<and> sender (messages (handleToggleReaction st msgId e) ! i) = sender (messages st ! i)
      \<and> originalText (messages (handleToggleReaction st msgId e) ! i)
          = originalText (messages st ! i)
      \<and> translatedText (messages (handleToggleReaction st msgId e) ! i)
          = translatedText (messages st ! i)
      \<and> timestamp (messages (handleToggleReaction st msgId e) ! i) = timestamp (messages st ! i)
      \<and> audioUrl (messages (handleToggleReaction st msgId e) ! i) = audioUrl (messages st ! i)
      \<and> (id_msg (messages st ! i) \<noteq> msgId \<longrightarrow>
            messages (handleToggleReaction st msgId e) ! i = messages st ! i)
      \<and> (id_msg (messages st ! i) = msgId \<and> myRole st = Some role \<longrightarrow>
            messages (handleToggleReaction st msgId e) ! i
              = (messages st ! i)\<lparr>reactions := toggleReactions e role (reactions (messages st ! i))\<rparr>))
   \<and> (distinct (map id_msg (messages st)) \<longrightarrow>
        (\<forall>i < length (messages st). id_msg (messages st ! i) = msgId \<longrightarrow>
          (\<forall>j < length (messages st). j \<noteq> i \<longrightarrow>
             messages (handleToggleReaction st msgId e) ! j = messages st ! j)))"
proof (intro conjI)
  show "length (messages (handleToggleReaction st msgId e)) = length (messages st)"
    by (cases "myRole st") (simp_all add: messages_handleToggleReaction)
next
  show "\<forall>i < length (messages st).
        id_msg (messages (handleToggleReaction st msgId e) ! i) = id_msg (messages st ! i)
      \<and> sender (messages (handleToggleReaction st msgId e) ! i) = sender (messages st ! i)
      \<and> originalText (messages (handleToggleReaction st msgId e) ! i)
          = originalText (messages st ! i)
      \<and> translatedText (messages (handleToggleReaction st msgId e) ! i)
          = translatedText (messages st ! i)
      \<and> timestamp (messages (handleToggleReaction st msgId e) ! i) = timestamp (messages st ! i)
      \<and> audioUrl (messages (handleToggleReaction st msgId e) ! i) = audioUrl (messages st ! i)
      \<and> (id_msg (messages st ! i) \<noteq> msgId \<longrightarrow>
            messages (handleToggleReaction st msgId e) ! i = messages st ! i)
      \<and> (id_msg (messages st ! i) = msgId \<and> myRole st = Some role \<longrightarrow>
            messages (handleToggleReaction st msgId e) ! i
              = (messages st ! i)\<lparr>reactions := toggleReactions e role (reactions (messages st ! i))\<rparr>)"
    by (cases "myRole st") (simp_all add: messages_handleToggleReaction toggleMsg_def)
next
  show "distinct (map id_msg (messages st)) \<longrightarrow>
        (\<forall>i < length (messages st). id_msg (messages st ! i) = msgId \<longrightarrow>
          (\<forall>j < length (messages st). j \<noteq> i \<longrightarrow>
             messages (handleToggleReaction st msgId e) ! j = messages st ! j))"
    using toggle_keeps_other_ids [of st _ msgId _ e] by blast
qed

lemma tabC_messages:
  "messages tabC = [m1, newMessage thanks english None 1730000000000 1730000000001]"
  by (simp add: tabC_def handleTranslationResult_def receive_def onmessage_def findIndex_def
      App_def Let_def)

lemma tabC_toggled:
  "messages (handleToggleReaction tabC (id_msg m1) heart) =
     [m1\<lparr>reactions := [heartA]\<rparr>,
      (newMessage thanks english None 1730000000000 1730000000001)\<lparr>reactions := [heartA]\<rparr>]"
proof -
  have role: "myRole tabC = Some english"
    by (simp add: tabC_def handleTranslationResult_def receive_def App_def Let_def)
  have ids: "id_msg (newMessage thanks english None 1730000000000 1730000000001) = id_msg m1"
    by (simp add: m1_def newMessage_def)
  have none: "reactions m1 = []"
      "reactions (newMessage thanks english None 1730000000000 1730000000001) = []"
    by (simp_all add: m1_def newMessage_def)
  show ?thesis
    using role ids none
    by (simp add: messages_handleToggleReaction tabC_messages toggleMsg_def toggleReactions_eq
        heartA_def)
qed

text \<open>
  C8 as stated fails.  \<open>tabC\<close> holds \<open>m1\<close>, delivered from the other tab, and a different
  message created locally in the same millisecond, both under one id.  A toggle on that id
  changes both entries, so whichever of them was meant, another message of the log changed.
\<close>

theorem toggle_frame_counterexample:
  "messages tabC = [m1, newMessage thanks english None 1730000000000 1730000000001]
   \<and> m1 \<noteq> newMessage thanks english None 1730000000000 1730000000001
   \<and> id_msg (messages tabC ! 0) = id_msg (messages tabC ! 1)
   \<and> messages (handleToggleReaction tabC (id_msg m1) heart) ! 0 \<noteq> messages tabC ! 0
   \<and> messages (handleToggleReaction tabC (id_msg m1) heart) ! 1 \<noteq> messages tabC ! 1"
proof -
  have differ: "m1 \<noteq> newMessage thanks english None 1730000000000 1730000000001"
    by (simp add: m1_def newMessage_def)
  have ids: "id_msg (newMessage thanks english None 1730000000000 1730000000001) = id_msg m1"
    by (simp add: m1_def newMessage_def)
  have r0: "reactions (m1\<lparr>reactions := [heartA]\<rparr>) \<noteq> reactions m1"
    by (simp add: m1_def newMessage_def)
  have r1: "reactions ((newMessage thanks english None 1730000000000 1730000000001)
      \<lparr>reactions := [heartA]\<rparr>)
      \<noteq> reactions (newMessage thanks english None 1730000000000 1730000000001)"
    by (simp add: newMessage_def)
  have c0: "m1\<lparr>reactions := [heartA]\<rparr> \<noteq> m1"
  proof
    assume "m1\<lparr>reactions := [heartA]\<rparr> = m1"
    then have "reactions (m1\<lparr>reactions := [heartA]\<rparr>) = reactions m1" by (rule arg_cong)
    with r0 show False by blast
  qed
  have c1: "(newMessage thanks english None 1730000000000 1730000000001)
      \<lparr>reactions := [heartA]\<rparr> \<noteq> newMessage thanks english None 1730000000000 1730000000001"
  proof
    assume "(newMessage thanks english None 1730000000000 1730000000001)\<lparr>reactions := [heartA]\<rparr>
      = newMessage thanks english None 1730000000000 1730000000001"
    then have "reactions ((newMessage thanks english None 1730000000000 1730000000001)
        \<lparr>reactions := [heartA]\<rparr>)
      = reactions (newMessage thanks english None 1730000000000 1730000000001)"
      by (rule arg_cong)
    with r1 show False by blast
  qed
  show ?thesis
    unfolding tabC_toggled tabC_messages using differ ids c0 c1 by simp
qed

theorem toggle_frame_witness:
  "length (messages (handleToggleReaction tabA (id_msg m1) heart)) = 2
   \<and> distinct (map id_msg (messages tabA))
   \<and> messages (handleToggleReaction tabA (id_msg m1) heart) ! 1 = m2
   \<and> messages (handleToggleReaction tabA (id_msg m1) heart) ! 0 = m1\<lparr>reactions := [fireA]\<rparr>
   \<and> id_msg (messages (handleToggleReaction tabA (id_msg m1) heart) ! 0) = id_msg m1
   \<and> originalText (messages (handleToggleReaction tabA (id_msg m1) heart) ! 0) = ascii ''Hola''
   \<and> reactions (messages (handleToggleReaction tabA (id_msg m1) heart) ! 0)
      \<noteq> reactions (messages tabA ! 0)"
proof -
  have len: "length (messages tabA) = 2" and m: "messages tabA ! 0 = m1\<lparr>reactions := [heartA, fireA]\<rparr>"
      "messages tabA ! 1 = m2"
    and role: "myRole tabA = Some english"
    by (simp_all add: tabA_def App_def)
  have d: "distinct (map id_msg (messages tabA))"
    using ids_differ by (simp add: tabA_def)
  note frame = toggle_frame [of tabA "id_msg m1" heart english, unfolded len]
  from frame have l: "length (messages (handleToggleReaction tabA (id_msg m1) heart)) = 2"
    by blast
  from frame d have other: "\<forall>i < 2. id_msg (messages tabA ! i) = id_msg m1 \<longrightarrow>
      (\<forall>j < 2. j \<noteq> i \<longrightarrow> messages (handleToggleReaction tabA (id_msg m1) heart) ! j = messages tabA ! j)"
    by blast
  have "(0::nat) < 2" "id_msg (messages tabA ! 0) = id_msg m1" "(1::nat) < 2" "(1::nat) \<noteq> 0"
    using m by simp_all
  with other have at1: "messages (handleToggleReaction tabA (id_msg m1) heart) ! 1 = messages tabA ! 1"
    by blast
  from frame have all: "\<forall>i < 2.
        id_msg (messages (handleToggleReaction tabA (id_msg m1) heart) ! i) = id_msg (messages tabA ! i)
      \<and> originalText (messages (handleToggleReaction tabA (id_msg m1) heart) ! i)
          = originalText (messages tabA ! i)
      \<and> (id_msg (messages tabA ! i) = id_msg m1 \<and> myRole tabA = Some english \<longrightarrow>
            messages (handleToggleReaction tabA (id_msg m1) heart) ! i
              = (messages tabA ! i)\<lparr>reactions := toggleReactions heart english (reactions (messages tabA ! i))\<rparr>)"
    by blast
  then have at0: "id_msg (messages (handleToggleReaction tabA (id_msg m1) heart) ! 0)
        = id_msg (messages tabA ! 0)"
      "originalText (messages (handleToggleReaction tabA (id_msg m1) heart) ! 0)
        = originalText (messages tabA ! 0)"
      "messages (handleToggleReaction tabA (id_msg m1) heart) ! 0
        = (messages tabA ! 0)\<lparr>reactions := toggleReactions heart english (reactions (messages tabA ! 0))\<rparr>"
    using m(1) role by simp_all
  have t: "toggleReactions heart english [heartA, fireA] = [fireA]"
    using heartA_neq_fireA by (simp add: toggleReactions_eq heartA_def fireA_def)
  have o: "originalText m1 = ascii ''Hola''"
    by (simp add: m1_def newMessage_def hola_def)
  have new0: "messages (handleToggleReaction tabA (id_msg m1) heart) ! 0 = m1\<lparr>reactions := [fireA]\<rparr>"
    using at0(3) m(1) t by simp
  have neq: "reactions (messages (handleToggleReaction tabA (id_msg m1) heart) ! 0)
      \<noteq> reactions (messages tabA ! 0)"
    unfolding new0 m(1) by simp
  from l d at1 m(2) new0 at0(1,2) m(1) o neq show ?thesis by simp
qed

section \<open>At most one reaction per emoji and sender\<close>

lemma reactionsUnique_toggle:
  "reactionsUnique (messages st) \<Longrightarrow> reactionsUnique (messages (handleToggleReaction st msgId e))"
  by (cases "myRole st")
    (auto simp: reactionsUnique_def messages_handleToggleReaction toggleMsg_def list_all_iff
      distinct_toggleReactions)

lemma reactionsUnique_create:
  "reactionsUnique (messages st) \<Longrightarrow>
   reactionsUnique (messages (handleTranslationResult st result sourceLang url now date))"
  by (simp add: reactionsUnique_def handleTranslationResult_def newMessage_def Let_def)

lemma reactionsUnique_applyLocal:
  "reactionsUnique (messages st) \<Longrightarrow> reactionsUnique (messages (applyLocal st op))"
  by (cases op) (simp_all add: reactionsUnique_toggle reactionsUnique_create selectRole_def)

lemma reactionsUnique_runLocal:
  "reactionsUnique (messages st) \<Longrightarrow> reactionsUnique (messages (runLocal st ops))"
  unfolding runLocal_def
  by (induction ops arbitrary: st) (simp_all add: reactionsUnique_applyLocal)

text \<open>
  C9.  Every message holds at most one reaction per pair of emoji and sender: this holds
  after any sequence of local operations (binding a role, creating a message, toggling a
  reaction) from a state with an empty log, and each single local operation preserves it.
  A created message has no reactions; on reactions without duplicates a toggle removes the
  one matching pair, after which none is left, or appends the pair when it was absent.
\<close>

theorem reactions_unique_invariant:
  "(messages st = [] \<longrightarrow> reactionsUnique (messages (runLocal st ops)))
   \<and> (reactionsUnique (messages st) \<longrightarrow> reactionsUnique (messages (applyLocal st op)))
   \<and> reactions (newMessage result sourceLang url now date) = []
   \<and> (distinct rs \<longrightarrow>
        distinct (toggleReactions e role rs)
        \<and> (\<lparr>emoji = e, sender_reaction = role\<rparr> \<in> set rs \<longrightarrow>
             toggleReactions e role rs = remove1 \<lparr>emoji = e, sender_reaction = role\<rparr> rs
             \<and> \<lparr>emoji = e, sender_reaction = role\<rparr> \<notin> set (toggleReactions e role rs))
        \<and> (\<lparr>emoji = e, sender_reaction = role\<rparr> \<notin> set rs \<longrightarrow>
             toggleReactions e role rs = rs @ [\<lparr>emoji = e, sender_reaction = role\<rparr>]))"
proof (intro conjI impI)
  assume "messages st = []"
  then have "reactionsUnique (messages st)" by (simp add: reactionsUnique_def)
  then show "reactionsUnique (messages (runLocal st ops))" by (rule reactionsUnique_runLocal)
next
  assume "reactionsUnique (messages st)"
  then show "reactionsUnique (messages (applyLocal st op))" by (rule reactionsUnique_applyLocal)
next
  show "reactions (newMessage result sourceLang url now date) = []"
    by (simp add: newMessage_def)
next
  assume "distinct rs"
  then show "distinct (toggleReactions e role rs)" by (rule distinct_toggleReactions)
next
  assume "\<lparr>emoji = e, sender_reaction = role\<rparr> \<in> set rs"
  then show "toggleReactions e role rs = remove1 \<lparr>emoji = e, sender_reaction = role\<rparr> rs"
    by (simp add: toggleReactions_eq)
next
  assume "distinct rs" "\<lparr>emoji = e, sender_reaction = role\<rparr> \<in> set rs"
  then show "\<lparr>emoji = e, sender_reaction = role\<rparr> \<notin> set (toggleReactions e role rs)"
    by (simp add: toggleReactions_eq)
next
  assume "\<lparr>emoji = e, sender_reaction = role\<rparr> \<notin> set rs"
  then show "toggleReactions e role rs = rs @ [\<lparr>emoji = e, sender_reaction = role\<rparr>]"
    by (simp add: toggleReactions_eq)
qed

lemma session_run:
  "messages (runLocal App session) =
     [(newMessage hola english None 1730000000000 1730000000000)\<lparr>reactions := [fireA]\<rparr>,
      newMessage thanks english None 1730000004000 1730000004001]"
  by (simp add: session_def runLocal_def App_def selectRole_def handleTranslationResult_def
      handleToggleReaction_def newMessage_def toggleReactions_def findIndex_def splice1_def
      postMessage_def toString_def heart_def fire_def fireA_def Let_def)

theorem reactions_unique_invariant_witness:
  "messages App = [] \<and> reactionsUnique (messages (runLocal App session))
   \<and> messages (runLocal App session) =
     [(newMessage hola english None 1730000000000 1730000000000)\<lparr>reactions := [fireA]\<rparr>,
      newMessage thanks english None 1730000004000 1730000004001]"
proof -
  have e: "messages App = []" by (simp add: App_def)
  with reactions_unique_invariant [of App session]
  have "reactionsUnique (messages (runLocal App session))" by blast
  with e session_run show ?thesis by (intro conjI)
qed

section \<open>Toggle on an unknown id\<close>

lemma toggle_unknown:
  assumes "\<forall>m \<in> set (messages st). id_msg m \<noteq> msgId"
  shows "handleToggleReaction st msgId e =
     (case myRole st of None \<Rightarrow> st | Some role \<Rightarrow> st\<lparr>activeReactionId := None\<rparr>)"
proof (cases "myRole st")
  case None
  then show ?thesis by (simp add: handleToggleReaction_unbound)
next
  case (Some role)
  have same: "map (toggleMsg msgId e role) (messages st) = messages st"
    using assms by (intro map_idI) (simp add: toggleMsg_def)
  have "filter (\<lambda>m. id_msg m = msgId) (messages st) = []"
    using assms by (simp add: filter_empty_conv)
  then have "map_option (\<lambda>out. out @ filter (\<lambda>m. id_msg m = msgId)
      (map (toggleMsg msgId e role) (messages st))) (channelRef st) = channelRef st"
    by (simp add: same option.map_ident)
  with Some same show ?thesis by (simp add: handleToggleReaction_bound)
qed

text \<open>
  C4 (as amended).  A toggle on an id that no message of the log has completes without any
  failure and is silent: the log, the channel and the alerts are what they were (the only
  write, with a role bound, closes the reaction picker).  Once a message with that id has
  arrived by merge, the same toggle updates it.
\<close>

theorem toggle_unknown_id_is_silent:
  assumes "\<forall>m \<in> set (messages st). id_msg m \<noteq> msgId"
  shows "handleToggleReaction_completion st msgId e = Inr (handleToggleReaction st msgId e)
    \<and> handleToggleReaction st msgId e =
        (case myRole st of None \<Rightarrow> st | Some role \<Rightarrow> st\<lparr>activeReactionId := None\<rparr>)
    \<and> messages (handleToggleReaction st msgId e) = messages st
    \<and> channelRef (handleToggleReaction st msgId e) = channelRef st
    \<and> alerts (handleToggleReaction st msgId e) = alerts st
    \<and> (id_msg incoming = msgId \<and> myRole st = Some role \<longrightarrow>
        messages (handleToggleReaction (receive st incoming) msgId e)
          = messages st @ [incoming\<lparr>reactions := toggleReactions e role (reactions incoming)\<rparr>])"
proof -
  note u = toggle_unknown [OF assms, of e]
  have after: "messages (handleToggleReaction (receive st incoming) msgId e)
      = messages st @ [incoming\<lparr>reactions := toggleReactions e role (reactions incoming)\<rparr>]"
    if "id_msg incoming = msgId" "myRole st = Some role"
  proof -
    have "onmessage (messages st) incoming = messages st @ [incoming]"
      using assms that(1) by (intro onmessage_unknown) simp
    moreover have "map (toggleMsg msgId e role) (messages st) = messages st"
      using assms by (intro map_idI) (simp add: toggleMsg_def)
    ultimately show ?thesis
      using that by (simp add: messages_handleToggleReaction receive_def toggleMsg_def)
  qed
  show ?thesis
    using u after by (cases "myRole st") (simp_all add: handleToggleReaction_completion_def)
qed

text \<open>
  C4 as stated fails: in a tab with an empty log the toggle on the id of \<open>m1\<close> is not a
  failure; it completes and leaves the state as it was.
\<close>

theorem toggle_unknown_id_counterexample:
  "messages tabB = []
   \<and> \<not> isl (handleToggleReaction_completion tabB (id_msg m1) fire)
   \<and> handleToggleReaction_completion tabB (id_msg m1) fire = Inr tabB"
  by (simp add: handleToggleReaction_completion_def handleToggleReaction_def tabB_def App_def)

theorem toggle_unknown_id_is_silent_witness:
  "messages tabB = []
   \<and> handleToggleReaction_completion tabB (id_msg m1) fire = Inr tabB
   \<and> messages (handleToggleReaction (receive tabB m1) (id_msg m1) fire)
       = [m1\<lparr>reactions := [\<lparr>emoji = fire, sender_reaction = spanish\<rparr>]\<rparr>]"
proof -
  have e: "messages tabB = []" and r: "myRole tabB = Some spanish"
    and a: "activeReactionId tabB = None"
    by (simp_all add: tabB_def App_def)
  then have h: "\<forall>m \<in> set (messages tabB). id_msg m \<noteq> id_msg m1" by simp
  note w = toggle_unknown_id_is_silent [OF h, of fire m1 spanish]
  from w r have "handleToggleReaction_completion tabB (id_msg m1) fire
      = Inr (tabB\<lparr>activeReactionId := None\<rparr>)"
    by simp
  moreover have "tabB\<lparr>activeReactionId := None\<rparr> = tabB"
    by (simp add: tabB_def App_def)
  moreover from w r
  have "messages (handleToggleReaction (receive tabB m1) (id_msg m1) fire)
      = messages tabB @ [m1\<lparr>reactions := toggleReactions fire spanish (reactions m1)\<rparr>]"
    by simp
  moreover have "toggleReactions fire spanish (reactions m1)
      = [\<lparr>emoji = fire, sender_reaction = spanish\<rparr>]"
    by (simp add: toggleReactions_eq m1_def newMessage_def)
  ultimately show ?thesis using e by simp
qed

section \<open>Message ids\<close>

lemma unat_digit:
  assumes "d < 10"
  shows "unat (of_nat (48 + d) :: 16 word) = 48 + d"
proof -
  have "unat (of_nat (48 + d) :: 16 word) = (48 + d) mod 2 ^ LENGTH(16)"
    by (rule unat_of_nat)
  also have "\<dots> = 48 + d" using assms by simp
  finally show ?thesis .
qed

lemma unat_digit_sum: "d < 10 \<Longrightarrow> unat (48 + of_nat d :: 16 word) = 48 + d"
  using unat_digit [of d] by simp

lemma digitsValue_snoc: "digitsValue (s @ [c]) = 10 * digitsValue s + (unat c - 48)"
  by (simp add: digitsValue_def)

lemma digitsValue_digits: "digitsValue (digits n) = n"
proof (induction n rule: digits.induct)
  case (1 n)
  show ?case
  proof (cases "n < 10")
    case True
    then have "digits n = [of_nat (48 + n)]" by (subst digits.simps) simp
    with True show ?thesis by (simp add: digitsValue_def unat_digit_sum del: digits.simps)
  next
    case False
    then have d: "digits n = digits (n div 10) @ [of_nat (48 + n mod 10)]"
      by (subst digits.simps) simp
    have "unat (of_nat (48 + n mod 10) :: 16 word) = 48 + n mod 10"
      by (rule unat_digit) simp
    with "1.IH" [OF False] show ?thesis
      unfolding d digitsValue_snoc by simp
  qed
qed

lemma digits_inject: "digits a = digits b \<Longrightarrow> a = b"
  by (metis digitsValue_digits)

lemma minus_not_digit: "0x2D \<notin> set (digits n)"
proof (induction n rule: digits.induct)
  case (1 n)
  have neq: "(of_nat (48 + d) :: 16 word) \<noteq> 0x2D" if "d < 10" for d
  proof
    assume "(of_nat (48 + d) :: 16 word) = 0x2D"
    then have "unat (of_nat (48 + d) :: 16 word) = unat (0x2D :: 16 word)"
      by (rule arg_cong)
    with that show False by (simp add: unat_digit_sum)
  qed
  show ?case
  proof (cases "n < 10")
    case True
    then have "digits n = [of_nat (48 + n)]" by (subst digits.simps) simp
    with neq [OF True] show ?thesis by (simp del: digits.simps)
  next
    case False
    then have d: "digits n = digits (n div 10) @ [of_nat (48 + n mod 10)]"
      by (subst digits.simps) simp
    have "(of_nat (48 + n mod 10) :: 16 word) \<noteq> 0x2D" by (rule neq) simp
    with "1.IH" [OF False] show ?thesis unfolding d by auto
  qed
qed

lemma digits_nonempty: "digits n \<noteq> []"
  by (subst digits.simps) simp

lemma toString_inject: "toString a = toString b \<Longrightarrow> a = b"
proof -
  assume eq: "toString a = toString b"
  have no_minus: "0x2D # xs \<noteq> digits n" for xs n
    using minus_not_digit [of n] by (metis list.set_intros(1))
  show "a = b"
  proof (cases "a < 0")
    case a: True
    show ?thesis
    proof (cases "b < 0")
      case True
      with a eq have "digits (nat (- a)) = digits (nat (- b))" by (simp add: toString_def)
      then have "nat (- a) = nat (- b)" by (rule digits_inject)
      with a True show ?thesis by simp
    next
      case False
      with a eq no_minus [of "digits (nat (- a))" "nat b"] show ?thesis
        by (simp add: toString_def)
    qed
  next
    case a: False
    show ?thesis
    proof (cases "b < 0")
      case True
      with a eq no_minus [of "digits (nat (- b))" "nat a"] show ?thesis
        by (simp add: toString_def)
    next
      case False
      with a eq have "digits (nat a) = digits (nat b)" by (simp add: toString_def)
      then have "nat a = nat b" by (rule digits_inject)
      with a False show ?thesis by simp
    qed
  qed
qed

lemma inj_on_toString: "inj_on toString A"
  by (rule inj_onI) (rule toString_inject)

lemma ids_toggle: "map id_msg (messages (handleToggleReaction st msgId e)) = map id_msg (messages st)"
  by (cases "myRole st") (simp_all add: messages_handleToggleReaction id_toggleMsg cong: map_cong)

lemma ids_runLocal:
  "map id_msg (messages (runLocal st ops)) = map id_msg (messages st) @ map toString (clockReadings ops)"
proof (induction ops arbitrary: st)
  case Nil
  then show ?case by (simp add: runLocal_def clockReadings_def)
next
  case (Cons op ops)
  have step: "map id_msg (messages (applyLocal st op)) =
      map id_msg (messages st) @ map toString (clockReadings [op])"
    by (cases op)
      (simp_all add: clockReadings_def selectRole_def handleTranslationResult_def newMessage_def
        ids_toggle Let_def)
  have "runLocal st (op # ops) = runLocal (applyLocal st op) ops"
    by (simp add: runLocal_def)
  moreover have "clockReadings (op # ops) = clockReadings [op] @ clockReadings ops"
    by (simp add: clockReadings_def)
  ultimately show ?case using Cons.IH [of "applyLocal st op"] step by simp
qed

text \<open>
  C5 (as amended).  The id of a created message is the decimal string of the clock reading
  \<open>Date.now()\<close> and nothing else: two created messages have the same id exactly when they
  were created at the same millisecond reading.  So in a session whose creations all read
  different clock values, starting from an empty log, the ids in the log are pairwise
  distinct.
\<close>

theorem ids_distinct_for_distinct_clock_readings:
  "(id_msg (newMessage result1 lang1 url1 now1 date1) = id_msg (newMessage result2 lang2 url2 now2 date2))
      = (now1 = now2)
   \<and> (messages st = [] \<and> distinct (clockReadings ops) \<longrightarrow>
        distinct (map id_msg (messages (runLocal st ops))))"
proof (intro conjI impI)
  show "(id_msg (newMessage result1 lang1 url1 now1 date1)
      = id_msg (newMessage result2 lang2 url2 now2 date2)) = (now1 = now2)"
    by (auto simp: newMessage_def dest: toString_inject)
next
  assume "messages st = [] \<and> distinct (clockReadings ops)"
  then show "distinct (map id_msg (messages (runLocal st ops)))"
    by (simp add: ids_runLocal distinct_map inj_on_toString)
qed

text \<open>
  C5 as stated fails: two different messages created within the same millisecond get the
  same id, and the log then holds one id twice.
\<close>

theorem ids_distinct_counterexample:
  "id_msg (newMessage hola spanish None 1730000000000 1730000000000)
     = id_msg (newMessage thanks english None 1730000000000 1730000000000)
   \<and> newMessage hola spanish None 1730000000000 1730000000000
     \<noteq> newMessage thanks english None 1730000000000 1730000000000
   \<and> \<not> distinct (map id_msg (messages (runLocal App
        [Create hola spanish None 1730000000000 1730000000000,
         Create thanks english None 1730000000000 1730000000000])))"
  by (simp add: newMessage_def runLocal_def handleTranslationResult_def Let_def)

theorem ids_distinct_for_distinct_clock_readings_witness:
  "messages App = [] \<and> distinct (clockReadings session)
   \<and> distinct (map id_msg (messages (runLocal App session)))
   \<and> id_msg m1 \<noteq> id_msg m2"
proof -
  have h: "messages App = [] \<and> distinct (clockReadings session)"
    by (simp add: App_def session_def clockReadings_def)
  note w = ids_distinct_for_distinct_clock_readings
    [of hola spanish None 1730000000000 1730000000000 thanks english None 1730000004000
      1730000004001 App session]
  from w h have "distinct (map id_msg (messages (runLocal App session)))" by blast
  moreover from w have "id_msg m1 \<noteq> id_msg m2" by (simp add: m1_def m2_def)
  ultimately show ?thesis using h by simp
qed

section \<open>Stopping a recording that was never started\<close>

lemma stopRecording_media_without_recorder:
  "mediaRecorderRef r = None \<Longrightarrow>
   stopRecording_media lastData readBase64 r = (Rejected NoRecorderFound, r)"
  by (simp add: stopRecording_media_def)

lemma stopRecording_media_initial:
  "stopRecording_media lastData readBase64 useAudioRecorder_media
     = (Rejected NoRecorderFound, useAudioRecorder_media)"
  by (simp add: stopRecording_media_def useAudioRecorder_media_def)

lemma stopRecording_never_rejects: "fst (stopRecording r) = Resolved Undefined"
  by (simp add: stopRecording_def)

text \<open>
  C6.  The recorder hook the App uses, stopped while idle, does not fail: the call returns
  nothing and the state stays as it was, so \<open>handleStopRecording\<close> goes on to request a
  translation with an undefined payload and the audio URL
  \<open>data:audio/wav;base64,undefined\<close>.  (The MediaRecorder hook rejects with
  \<open>NoRecorderFound\<close> in that situation, see \<open>stopRecording_media_without_recorder\<close>.)
\<close>

theorem stop_while_idle_in_App:
  "isRecording (recorder tabB) = False
   \<and> stopRecording (recorder tabB) = (Resolved Undefined, recorder tabB)
   \<and> handleStopRecording tabB =
       (tabB\<lparr>isProcessing := True\<rparr>,
        Some (Undefined, spanish, ascii ''data:audio/wav;base64,undefined''))"
  by (simp add: handleStopRecording_def stopRecording_def tabB_def App_def trim_def ascii_def)

section \<open>The local log does not depend on the channel\<close>

lemma toggle_posts_local_records:
  "\<exists>posted.
     channelRef (handleToggleReaction (st\<lparr>channelRef := Some out\<rparr>) msgId e) = Some (out @ posted)
     \<and> set posted \<subseteq> set (messages (handleToggleReaction (st\<lparr>channelRef := Some out\<rparr>) msgId e))"
proof (cases "myRole st")
  case None
  then have "handleToggleReaction (st\<lparr>channelRef := Some out\<rparr>) msgId e = st\<lparr>channelRef := Some out\<rparr>"
    by (simp add: handleToggleReaction_unbound)
  then have "channelRef (handleToggleReaction (st\<lparr>channelRef := Some out\<rparr>) msgId e) = Some (out @ [])
      \<and> set [] \<subseteq> set (messages (handleToggleReaction (st\<lparr>channelRef := Some out\<rparr>) msgId e))"
    by simp
  then show ?thesis by blast
next
  case (Some role)
  let ?ms = "map (toggleMsg msgId e role) (messages st)"
  from Some have "handleToggleReaction (st\<lparr>channelRef := Some out\<rparr>) msgId e =
      st\<lparr>messages := ?ms, channelRef := Some (out @ filter (\<lambda>m. id_msg m = msgId) ?ms),
         activeReactionId := None\<rparr>"
    by (simp add: handleToggleReaction_bound)
  then have "channelRef (handleToggleReaction (st\<lparr>channelRef := Some out\<rparr>) msgId e)
        = Some (out @ filter (\<lambda>m. id_msg m = msgId) ?ms)
      \<and> set (filter (\<lambda>m. id_msg m = msgId) ?ms)
        \<subseteq> set (messages (handleToggleReaction (st\<lparr>channelRef := Some out\<rparr>) msgId e))"
    by simp
  then show ?thesis by blast
qed

lemma toggle_applied_locally:
  assumes "myRole st = Some role"
  shows "messages (handleToggleReaction (st\<lparr>channelRef := ch\<rparr>) msgId e)
      = map (toggleMsg msgId e role) (messages st)"
    and "channelRef (handleToggleReaction (st\<lparr>channelRef := None\<rparr>) msgId e) = None"
    and "channelRef (handleToggleReaction (st\<lparr>channelRef := Some out\<rparr>) msgId e)
      = Some (out @ filter (\<lambda>m. id_msg m = msgId) (map (toggleMsg msgId e role) (messages st)))"
  using assms by (simp_all add: handleToggleReaction_bound)

text \<open>
  C7.  Every handler that produces a record writes it to the local log itself, whatever the
  state of the channel (\<open>ch\<close> is arbitrary: closed, or open with any history): a created
  message (text or voice) is appended, with a closed channel nothing is posted and the log
  is updated all the same, with an open one the same record is posted.  A toggle with a
  role bound leaves the log with every entry of the targeted id replaced by its toggled
  record, for every channel state; with a closed channel nothing is posted, with an open
  one exactly those toggled records of the new log are posted.  No handler reads the channel
  or goes through \<open>receive\<close>.
\<close>

theorem local_log_independent_of_channel:
  "messages (handleTranslationResult (st\<lparr>channelRef := ch\<rparr>) result sourceLang url now date)
     = messages st @ [newMessage result sourceLang url now date]
   \<and> channelRef (handleTranslationResult (st\<lparr>channelRef := None\<rparr>) result sourceLang url now date)
     = None
   \<and> channelRef (handleTranslationResult (st\<lparr>channelRef := Some out\<rparr>) result sourceLang url now date)
     = Some (out @ [newMessage result sourceLang url now date])
   \<and> messages (handleSendText_settled (st\<lparr>channelRef := ch\<rparr>) role (Some result) now date)
     = messages st @ [newMessage result role None now date]
   \<and> messages (handleStopRecording_settled (st\<lparr>channelRef := ch\<rparr>) role voiceUrl (Some result) now date)
     = messages st @ [newMessage result role (Some voiceUrl) now date]
   \<and> messages (handleToggleReaction (st\<lparr>channelRef := ch\<rparr>) msgId e)
     = messages (handleToggleReaction st msgId e)
   \<and> (\<exists>posted.
        channelRef (handleToggleReaction (st\<lparr>channelRef := Some out\<rparr>) msgId e) = Some (out @ posted)
        \<and> set posted \<subseteq> set (messages (handleToggleReaction (st\<lparr>channelRef := Some out\<rparr>) msgId e)))
   \<and> (myRole st = Some actingRole \<longrightarrow>
        messages (handleToggleReaction (st\<lparr>channelRef := ch\<rparr>) msgId e)
          = map (toggleMsg msgId e actingRole) (messages st)
        \<and> (\<forall>i < length (messages st). id_msg (messages st ! i) = msgId \<longrightarrow>
              messages (handleToggleReaction (st\<lparr>channelRef := ch\<rparr>) msgId e) ! i
                = (messages st ! i)
                    \<lparr>reactions := toggleReactions e actingRole (reactions (messages st ! i))\<rparr>)
        \<and> channelRef (handleToggleReaction (st\<lparr>channelRef := None\<rparr>) msgId e) = None
        \<and> channelRef (handleToggleReaction (st\<lparr>channelRef := Some out\<rparr>) msgId e)
          = Some (out @ filter (\<lambda>m. id_msg m = msgId)
                (messages (handleToggleReaction (st\<lparr>channelRef := Some out\<rparr>) msgId e))))"
proof (intro conjI impI)
  show "\<exists>posted.
      channelRef (handleToggleReaction (st\<lparr>channelRef := Some out\<rparr>) msgId e) = Some (out @ posted)
      \<and> set posted \<subseteq> set (messages (handleToggleReaction (st\<lparr>channelRef := Some out\<rparr>) msgId e))"
    by (rule toggle_posts_local_records)
next
  assume r: "myRole st = Some actingRole"
  show "messages (handleToggleReaction (st\<lparr>channelRef := ch\<rparr>) msgId e)
      = map (toggleMsg msgId e actingRole) (messages st)"
    using r by (rule toggle_applied_locally(1))
  then show "\<forall>i < length (messages st). id_msg (messages st ! i) = msgId \<longrightarrow>
      messages (handleToggleReaction (st\<lparr>channelRef := ch\<rparr>) msgId e) ! i
        = (messages st ! i)\<lparr>reactions := toggleReactions e actingRole (reactions (messages st ! i))\<rparr>"
    by (simp add: toggleMsg_def)
  show "channelRef (handleToggleReaction (st\<lparr>channelRef := None\<rparr>) msgId e) = None"
    using r by (rule toggle_applied_locally(2))
  show "channelRef (handleToggleReaction (st\<lparr>channelRef := Some out\<rparr>) msgId e)
      = Some (out @ filter (\<lambda>m. id_msg m = msgId)
            (messages (handleToggleReaction (st\<lparr>channelRef := Some out\<rparr>) msgId e)))"
    using toggle_applied_locally(1,3) [OF r] by simp
qed (simp_all add: handleTranslationResult_def handleSendText_settled_def
    handleStopRecording_settled_def postMessage_def messages_handleToggleReaction Let_def
    split: option.splits)

theorem local_log_independent_of_channel_witness:
  "messages (handleTranslationResult (tabB\<lparr>channelRef := None\<rparr>) hola spanish None
      1730000000000 1730000000000) = [m1]
   \<and> channelRef (handleTranslationResult (tabB\<lparr>channelRef := None\<rparr>) hola spanish None
      1730000000000 1730000000000) = None
   \<and> messages (handleTranslationResult (tabB\<lparr>channelRef := Some []\<rparr>) hola spanish None
      1730000000000 1730000000000) = [m1]
   \<and> channelRef (handleTranslationResult (tabB\<lparr>channelRef := Some []\<rparr>) hola spanish None
      1730000000000 1730000000000) = Some [m1]
   \<and> messages (handleToggleReaction (tabA\<lparr>channelRef := None\<rparr>) (id_msg m1) heart)
     = messages (handleToggleReaction tabA (id_msg m1) heart)
   \<and> myRole tabA = Some english
   \<and> messages (handleToggleReaction (tabA\<lparr>channelRef := None\<rparr>) (id_msg m1) heart)
     = [m1\<lparr>reactions := [fireA]\<rparr>, m2]
   \<and> channelRef (handleToggleReaction (tabA\<lparr>channelRef := None\<rparr>) (id_msg m1) heart) = None
   \<and> messages (handleToggleReaction (tabA\<lparr>channelRef := Some []\<rparr>) (id_msg m1) heart)
     = [m1\<lparr>reactions := [fireA]\<rparr>, m2]
   \<and> channelRef (handleToggleReaction (tabA\<lparr>channelRef := Some []\<rparr>) (id_msg m1) heart)
     = Some [m1\<lparr>reactions := [fireA]\<rparr>]"
proof -
  have b: "messages tabB = []" by (simp add: tabB_def App_def)
  have n: "newMessage hola spanish None 1730000000000 1730000000000 = m1" by (simp add: m1_def)
  have role: "myRole tabA = Some english" by (simp add: tabA_def App_def)
  have t: "toggleReactions heart english [heartA, fireA] = [fireA]"
    using heartA_neq_fireA by (simp add: toggleReactions_eq heartA_def fireA_def)
  have toggled: "map (toggleMsg (id_msg m1) heart english) (messages tabA)
      = [m1\<lparr>reactions := [fireA]\<rparr>, m2]"
    using ids_differ t by (simp add: tabA_def toggleMsg_def)
  note w1 = local_log_independent_of_channel [where st = tabB and ch = None and result = hola
      and sourceLang = spanish and url = None and now = 1730000000000 and date = 1730000000000
      and out = "[]" and msgId = "id_msg m1" and e = heart and actingRole = english]
  note w2 = local_log_independent_of_channel [where st = tabB and ch = "Some []" and result = hola
      and sourceLang = spanish and url = None and now = 1730000000000 and date = 1730000000000
      and out = "[]" and msgId = "id_msg m1" and e = heart and actingRole = english]
  note w3 = local_log_independent_of_channel [where st = tabA and ch = None and result = hola
      and sourceLang = spanish and url = None and now = 1730000000000 and date = 1730000000000
      and out = "[]" and msgId = "id_msg m1" and e = heart and actingRole = english]
  note w4 = local_log_independent_of_channel [where st = tabA and ch = "Some []" and result = hola
      and sourceLang = spanish and url = None and now = 1730000000000 and date = 1730000000000
      and out = "[]" and msgId = "id_msg m1" and e = heart and actingRole = english]
  from w1 have 1: "messages (handleTranslationResult (tabB\<lparr>channelRef := None\<rparr>) hola spanish None
      1730000000000 1730000000000) = [m1]"
    and 2: "channelRef (handleTranslationResult (tabB\<lparr>channelRef := None\<rparr>) hola spanish None
      1730000000000 1730000000000) = None"
    unfolding n b by simp_all
  from w2 have 3: "messages (handleTranslationResult (tabB\<lparr>channelRef := Some []\<rparr>) hola spanish None
      1730000000000 1730000000000) = [m1]"
    and 4: "channelRef (handleTranslationResult (tabB\<lparr>channelRef := Some []\<rparr>) hola spanish None
      1730000000000 1730000000000) = Some [m1]"
    unfolding n b by simp_all
  from w3 have 5: "messages (handleToggleReaction (tabA\<lparr>channelRef := None\<rparr>) (id_msg m1) heart)
     = messages (handleToggleReaction tabA (id_msg m1) heart)"
    by blast
  from w3 role have "messages (handleToggleReaction (tabA\<lparr>channelRef := None\<rparr>) (id_msg m1) heart)
      = map (toggleMsg (id_msg m1) heart english) (messages tabA)"
    and 7: "channelRef (handleToggleReaction (tabA\<lparr>channelRef := None\<rparr>) (id_msg m1) heart) = None"
    by blast+
  then have 6: "messages (handleToggleReaction (tabA\<lparr>channelRef := None\<rparr>) (id_msg m1) heart)
      = [m1\<lparr>reactions := [fireA]\<rparr>, m2]"
    using toggled by simp
  from w4 role have "messages (handleToggleReaction (tabA\<lparr>channelRef := Some []\<rparr>) (id_msg m1) heart)
      = map (toggleMsg (id_msg m1) heart english) (messages tabA)"
    and post: "channelRef (handleToggleReaction (tabA\<lparr>channelRef := Some []\<rparr>) (id_msg m1) heart)
      = Some ([] @ filter (\<lambda>m. id_msg m = id_msg m1)
            (messages (handleToggleReaction (tabA\<lparr>channelRef := Some []\<rparr>) (id_msg m1) heart)))"
    by blast+
  then have 8: "messages (handleToggleReaction (tabA\<lparr>channelRef := Some []\<rparr>) (id_msg m1) heart)
      = [m1\<lparr>reactions := [fireA]\<rparr>, m2]"
    using toggled by simp
  have 9: "channelRef (handleToggleReaction (tabA\<lparr>channelRef := Some []\<rparr>) (id_msg m1) heart)
      = Some [m1\<lparr>reactions := [fireA]\<rparr>]"
    using post ids_differ unfolding 8 by simp
  from 1 2 3 4 5 role 6 7 8 9 show ?thesis by (intro conjI)
qed

section \<open>The guard of handleSendText\<close>

lemma handleSendText_proceeds:
  "trim (inputText st) \<noteq> [] \<Longrightarrow> \<not> isProcessing st \<Longrightarrow> myRole st = Some role \<Longrightarrow>
   handleSendText st = (st\<lparr>isProcessing := True, inputText := []\<rparr>, Some (inputText st, role))"
  by (simp add: handleSendText_def)

text \<open>
  C10.  If the trimmed input is empty, or a send is in flight, or no role is bound,
  \<open>handleSendText\<close> leaves the whole state (log, channel, input, flags) as it is and
  makes no translation request.
\<close>

theorem send_text_guard:
  "trim (inputText st) = [] \<or> isProcessing st \<or> myRole st = None \<Longrightarrow>
   handleSendText st = (st, None)"
  by (auto simp: handleSendText_def split: option.splits)

theorem send_text_guard_witness:
  "trim (inputText (tabA\<lparr>inputText := ascii ''  ''\<rparr>)) = []
   \<and> handleSendText (tabA\<lparr>inputText := ascii ''  ''\<rparr>) = (tabA\<lparr>inputText := ascii ''  ''\<rparr>, None)
   \<and> isProcessing (tabA\<lparr>inputText := ascii ''Hola'', isProcessing := True\<rparr>)
   \<and> handleSendText (tabA\<lparr>inputText := ascii ''Hola'', isProcessing := True\<rparr>)
       = (tabA\<lparr>inputText := ascii ''Hola'', isProcessing := True\<rparr>, None)
   \<and> myRole (App\<lparr>inputText := ascii ''Hola''\<rparr>) = None
   \<and> handleSendText (App\<lparr>inputText := ascii ''Hola''\<rparr>) = (App\<lparr>inputText := ascii ''Hola''\<rparr>, None)"
proof -
  have 1: "trim (inputText (tabA\<lparr>inputText := ascii ''  ''\<rparr>)) = []"
    by (simp add: trim_def isWhiteSpace_def ascii_def)
  have 2: "isProcessing (tabA\<lparr>inputText := ascii ''Hola'', isProcessing := True\<rparr>)" by simp
  have 3: "myRole (App\<lparr>inputText := ascii ''Hola''\<rparr>) = None" by (simp add: App_def)
  from 1 have "handleSendText (tabA\<lparr>inputText := ascii ''  ''\<rparr>) = (tabA\<lparr>inputText := ascii ''  ''\<rparr>, None)"
    by (intro send_text_guard) simp
  moreover from 2 have "handleSendText (tabA\<lparr>inputText := ascii ''Hola'', isProcessing := True\<rparr>)
       = (tabA\<lparr>inputText := ascii ''Hola'', isProcessing := True\<rparr>, None)"
    by (intro send_text_guard) simp
  moreover from 3 have "handleSendText (App\<lparr>inputText := ascii ''Hola''\<rparr>)
       = (App\<lparr>inputText := ascii ''Hola''\<rparr>, None)"
    by (intro send_text_guard) simp
  ultimately show ?thesis using 1 2 3 by (intro conjI)
qed

lemma send_text_proceeds_example:
  "handleSendText (tabA\<lparr>inputText := ascii '' Hola ''\<rparr>)
     = (tabA\<lparr>isProcessing := True\<rparr>, Some (ascii '' Hola '', english))"
  by (simp add: handleSendText_def trim_def isWhiteSpace_def ascii_def tabA_def App_def)

end
